theory Spec2Isabelle
  imports Complex_Main "HOL-Library.Multiset" "HOL-Library.Char_ord" "HOL-Library.List_Lexorder"
begin

section \<open>The e-commerce recommendation demo (src/2.cpp)\<close>

text \<open>
  The development embeds the product-similarity index (\<open>ProductAgent\<close>), the k-means
  segmentation (\<open>SegmentationAgent::simpleKMeans\<close>) and the three-tier recommendation
  waterfall (\<open>RecommendationAgent\<close>) of \<open>src/2.cpp\<close>.

  Conventions of the embedding:
  \<^item> in \<open>ProductAgent\<close> a C++ \<open>double\<close> is an exact \<open>real\<close>; rounding is not modelled
    there. The one place where the source divides without a guard, the quotient is a
    \<open>dbl\<close>, which keeps the IEEE outcome of a division by zero (NaN for 0/0, an infinity
    otherwise) apart from the finite quotients;
  \<^item> in \<open>simpleKMeans\<close> a \<open>double\<close> is a \<open>dbl\<close>, and the four operations of the loop that
    round (\<open>+=\<close>, \<open>-\<close>, \<open>pow(., 2)\<close> and \<open>/=\<close> by a count) are the fields of a parameter:
    what is proved with the parameter free holds for the arithmetic of any machine.
    \<open>binary64\<close> is the arithmetic of IEEE 754 doubles;
  \<^item> \<open>std::hash<string>\<close>, \<open>rand()\<close> and \<open>std::partial_sort\<close> belong to the C++ library,
    not to the repository: the first two are parameters, the third is a parameter
    constrained by the contract the C++ standard gives it. \<open>heap_psort\<close> is the partial
    sort of the GNU C++ library, for the runs that depend on how ties fall;
  \<^item> undefined behaviour (an iterator or an index outside its range) is the error value
    \<open>OutOfBounds\<close>;
  \<^item> an SQLite table is the list of its rows in table order. The source builds each SQL
    text by concatenation, with a caller's string between two quote characters. Where
    SQLite reads that string as one string literal (\<open>spliced_literal\<close>), the query is the
    list function its text denotes; where the text ends inside the literal, the
    statement does not compile and \<open>executeQuery\<close> returns no row; where a quote of the
    string ends the literal, the statement SQLite runs is another one, and the result
    is \<open>NotModelled\<close>. The order in which \<open>ORDER BY\<close> leaves rows of equal keys is open: the
    sorter of SQLite is a parameter under the contract \<open>order_by_contract\<close>.
\<close>

subsection \<open>Doubles at an unguarded division\<close>

datatype dbl = Fin real | PInf | NInf | NaN

definition ddiv :: "real \<Rightarrow> real \<Rightarrow> dbl" where
  \<comment> \<open>IEEE 754 division \<open>x / y\<close> of doubles, for a divisor that is never \<open>-0\<close>.\<close>
  "ddiv x y =
     (if y \<noteq> 0 then Fin (x / y)
      else if x = 0 then NaN
      else if 0 < x then PInf else NInf)"

fun dgt :: "dbl \<Rightarrow> dbl \<Rightarrow> bool" where
  \<comment> \<open>\<open>a > b\<close> on doubles: every comparison with NaN is false.\<close>
  "dgt (Fin a) (Fin b) = (b < a)"
| "dgt NaN _ = False"
| "dgt _ NaN = False"
| "dgt PInf PInf = False"
| "dgt PInf _ = True"
| "dgt _ PInf = False"
| "dgt NInf _ = False"
| "dgt (Fin a) NInf = True"


text \<open>
  \<open>OutOfBounds\<close>: undefined behaviour of the source, an iterator or an index outside its
  range. \<open>NotModelled\<close>: an SQL text in which a spliced string is more than a string
  literal.
\<close>

datatype error = OutOfBounds | NotModelled

subsection \<open>The database tables and the queries of the source\<close>

text \<open>
  The tables of \<open>initializeDatabase\<close>, with the columns that the embedded queries read.
  \<open>product_id\<close> and \<open>customer_id\<close> are the primary keys of their tables. A timestamp is
  the text that \<open>currentTimestamp\<close> prints (\<open>strftime "%Y-%m-%d %H:%M:%S"\<close>), which SQLite
  stores and compares as text.
\<close>

record customer_row =
  customer_id :: string
  segment :: string
  preferences :: string

record product_row =
  product_id :: string
  name :: string
  description :: string
  tags :: string
  popularity_score :: real

record interaction_row =
  i_customer_id :: string
  i_product_id :: string
  i_timestamp :: string

record purchase_row =
  purchase_id :: nat
  pu_customer_id :: string
  pu_product_id :: string

record database =
  customers :: "customer_row list"
  products :: "product_row list"
  interactions :: "interaction_row list"
  purchases :: "purchase_row list"

definition sql_quote :: char where
  \<comment> \<open>The single quote, which delimits an SQL string literal.\<close>
  "sql_quote = CHR 0x27"

definition sql_nul :: char where
  \<comment> \<open>The NUL byte, at which \<open>sql.c_str()\<close> ends the text that SQLite receives.\<close>
  "sql_nul = CHR 0x00"

fun unquote :: "string \<Rightarrow> string option" where
  \<comment> \<open>The text between the two quotes of \<open>"... = '" + s + "'"\<close>, as the tokenizer of
      SQLite reads it: two quotes in a row stand for one quote character of the literal,
      and a single quote ends the literal before the end of \<open>s\<close> (\<open>None\<close>).\<close>
  "unquote [] = Some []"
| "unquote [c] = (if c = sql_quote then None else Some [c])"
| "unquote (c # d # cs) =
     (if c = sql_quote
      then (if d = sql_quote then map_option ((#) sql_quote) (unquote cs) else None)
      else map_option ((#) c) (unquote (d # cs)))"

datatype spliced = Literal string | Syntax_error | Other_statement

definition spliced_literal :: "string \<Rightarrow> spliced" where
  \<comment> \<open>How SQLite reads \<open>"... WHERE column = '" + s + "'"\<close>, of which it receives the text
      up to the first NUL. \<open>Literal v\<close>: the column is compared with the string \<open>v\<close>.
      \<open>Syntax_error\<close>: the text ends inside the literal, the statement does not compile,
      and \<open>executeQuery\<close> returns no row. \<open>Other_statement\<close>: a quote of \<open>s\<close> ends the
      literal, and the rest of \<open>s\<close> is SQL: the statement is not the query of the source
      text.\<close>
  "spliced_literal s =
     (case unquote (takeWhile (\<lambda>c. c \<noteq> sql_nul) s) of
        None \<Rightarrow> Other_statement
      | Some v \<Rightarrow> if sql_nul \<in> set s then Syntax_error else Literal v)"

definition sql_safe :: "string \<Rightarrow> bool" where
  \<comment> \<open>No quote and no NUL: the spliced text is the literal of the string itself.\<close>
  "sql_safe s \<longleftrightarrow> sql_quote \<notin> set s \<and> sql_nul \<notin> set s"

type_synonym row_sorter = "(nat \<Rightarrow> nat \<Rightarrow> bool) \<Rightarrow> nat list \<Rightarrow> nat list"

definition order_by_desc :: "row_sorter \<Rightarrow> ('a \<Rightarrow> 'k::linorder) \<Rightarrow> 'a list \<Rightarrow> 'a list" where
  \<comment> \<open>\<open>ORDER BY key DESC\<close>: the sorter of SQLite arranges the row numbers, given which row
      has to come before which (the one of the greater key).\<close>
  "order_by_desc sorter key rows =
     map ((!) rows) (sorter (\<lambda>a b. key (rows ! b) < key (rows ! a)) [0..<length rows])"

definition sql_limit :: "int \<Rightarrow> 'a list \<Rightarrow> 'a list" where
  \<comment> \<open>\<open>LIMIT n\<close>; SQLite reads a negative limit as no limit.\<close>
  "sql_limit n rows = (if n < 0 then rows else take (nat n) rows)"

subsection \<open>ProductAgent\<close>

record product_agent =
  productIds :: "string list"
  productVectors :: "real list list"

definition createTextVector :: "(string \<Rightarrow> nat) \<Rightarrow> string \<Rightarrow> real list" where
  \<comment> \<open>\<open>vector[i] = (hash % (i + 1)) / 100.0\<close> for \<open>i\<close> below 128.\<close>
  "createTextVector hasher txt =
     map (\<lambda>i. real (hasher txt mod (i + 1)) / 100) [0..<128]"

definition prepareProductVectors ::
  "(string \<Rightarrow> nat) \<Rightarrow> database \<Rightarrow> product_agent \<Rightarrow> product_agent" where
  \<comment> \<open>Both vectors are cleared and refilled from
      \<open>SELECT product_id, name, description, tags FROM products\<close>.\<close>
  "prepareProductVectors hasher db agent =
     agent\<lparr>productIds := map product_id (products db),
           productVectors :=
             map (\<lambda>p. createTextVector hasher (name p @ '' '' @ description p @ '' '' @ tags p))
               (products db)\<rparr>"

definition inner_product :: "real list \<Rightarrow> real list \<Rightarrow> real \<Rightarrow> real" where
  \<comment> \<open>\<open>std::inner_product(u.begin(), u.end(), v.begin(), init)\<close>, on vectors of one
      length: every vector of the index has 128 components.\<close>
  "inner_product u v init = foldl (\<lambda>acc (a, b). acc + a * b) init (zip u v)"

definition cosine :: "real list \<Rightarrow> real list \<Rightarrow> dbl" where
  \<comment> \<open>The body of the loop of \<open>calculateSimilarities\<close>: what it pushes for one
      \<open>otherVec\<close>.\<close>
  "cosine vec otherVec =
     (let dot = inner_product vec otherVec 0;
          norm1 = sqrt (inner_product vec vec 0);
          norm2 = sqrt (inner_product otherVec otherVec 0)
      in ddiv dot (norm1 * norm2))"

definition calculateSimilarities :: "product_agent \<Rightarrow> real list \<Rightarrow> dbl list" where
  "calculateSimilarities agent vec = map (cosine vec) (productVectors agent)"

primrec find_pos :: "'a list \<Rightarrow> 'a \<Rightarrow> nat option" where
  \<comment> \<open>\<open>distance(xs.begin(), find(xs.begin(), xs.end(), x))\<close>, \<open>None\<close> for \<open>xs.end()\<close>.\<close>
  "find_pos [] x = None"
| "find_pos (y # ys) x = (if y = x then Some 0 else map_option Suc (find_pos ys x))"

definition strict_weak_order_on :: "'a set \<Rightarrow> ('a \<Rightarrow> 'a \<Rightarrow> bool) \<Rightarrow> bool" where
  \<comment> \<open>The requirement of the C++ standard on a comparator: irreflexive, transitive, and
      with a transitive incomparability.\<close>
  "strict_weak_order_on A cmp \<longleftrightarrow>
     (\<forall>a\<in>A. \<not> cmp a a) \<and>
     (\<forall>a\<in>A. \<forall>b\<in>A. \<forall>c\<in>A. cmp a b \<longrightarrow> cmp b c \<longrightarrow> cmp a c) \<and>
     (\<forall>a\<in>A. \<forall>b\<in>A. \<forall>c\<in>A.
        \<not> cmp a b \<longrightarrow> \<not> cmp b a \<longrightarrow> \<not> cmp b c \<longrightarrow> \<not> cmp c b \<longrightarrow> \<not> cmp a c \<and> \<not> cmp c a)"

definition partial_sort_contract ::
  "((nat \<Rightarrow> nat \<Rightarrow> bool) \<Rightarrow> nat \<Rightarrow> nat list \<Rightarrow> nat list) \<Rightarrow> bool" where
  \<comment> \<open>What the C++ standard promises of \<open>std::partial_sort(first, first + m, last, cmp)\<close>
      with \<open>m\<close> inside the range: the range is rearranged; under a strict weak order its
      first \<open>m\<close> places hold the \<open>m\<close> first elements in order. The order of equivalent
      elements and of the rest is left open.\<close>
  "partial_sort_contract psort \<longleftrightarrow>
     (\<forall>cmp m xs. m \<le> length xs \<longrightarrow>
        mset (psort cmp m xs) = mset xs \<and>
        (strict_weak_order_on (set xs) cmp \<longrightarrow>
           sorted_wrt (\<lambda>a b. \<not> cmp b a) (take m (psort cmp m xs)) \<and>
           (\<forall>a\<in>set (take m (psort cmp m xs)).
              \<forall>b\<in>set (drop m (psort cmp m xs)). \<not> cmp b a)))"

fun result_loop :: "string list \<Rightarrow> nat \<Rightarrow> nat list \<Rightarrow> error + string list" where
  \<comment> \<open>The loop that copies \<open>productIds[indices[i]]\<close> for every \<open>indices[i] != idx\<close>.\<close>
  "result_loop ids idx [] = Inr []"
| "result_loop ids idx (i # rest) =
     (if i = idx then result_loop ids idx rest
      else if length ids \<le> i then Inl OutOfBounds
      else (case result_loop ids idx rest of
              Inl e \<Rightarrow> Inl e
            | Inr r \<Rightarrow> Inr (ids ! i # r)))"

definition getSimilarProducts ::
  "((nat \<Rightarrow> nat \<Rightarrow> bool) \<Rightarrow> nat \<Rightarrow> nat list \<Rightarrow> nat list) \<Rightarrow> product_agent \<Rightarrow> string \<Rightarrow> int
     \<Rightarrow> error + string list" where
  \<comment> \<open>\<open>partial_sort(indices.begin(), indices.begin() + topN + 1, indices.end(), cmp)\<close>
      needs its middle iterator inside the range; \<open>productVectors[idx]\<close> and
      \<open>productIds[indices[i]]\<close> need their index below the size.\<close>
  "getSimilarProducts psort agent productId topN =
     (if productVectors agent = [] \<or> productIds agent = [] then Inr []
      else case find_pos (productIds agent) productId of
        None \<Rightarrow> Inr []
      | Some idx \<Rightarrow>
          if length (productVectors agent) \<le> idx then Inl OutOfBounds
          else
            let similarities = calculateSimilarities agent (productVectors agent ! idx);
                indices = [0..<length similarities]
            in if topN + 1 < 0 \<or> int (length indices) < topN + 1 then Inl OutOfBounds
               else
                 let sorted_indices =
                       psort (\<lambda>a b. dgt (similarities ! a) (similarities ! b))
                         (nat (topN + 1)) indices
                 in result_loop (productIds agent) idx (take (nat topN) sorted_indices))"

subsection \<open>A partial sort that meets the contract\<close>

fun insert_by :: "('a \<Rightarrow> 'a \<Rightarrow> bool) \<Rightarrow> 'a \<Rightarrow> 'a list \<Rightarrow> 'a list" where
  "insert_by cmp x [] = [x]"
| "insert_by cmp x (y # ys) = (if cmp y x then y # insert_by cmp x ys else x # y # ys)"

definition insertion_psort :: "('a \<Rightarrow> 'a \<Rightarrow> bool) \<Rightarrow> nat \<Rightarrow> 'a list \<Rightarrow> 'a list" where
  \<comment> \<open>Sorts the whole range by insertion; equivalent elements keep their order.\<close>
  "insertion_psort cmp m xs = foldr (insert_by cmp) xs []"

definition reversing_psort :: "('a \<Rightarrow> 'a \<Rightarrow> bool) \<Rightarrow> nat \<Rightarrow> 'a list \<Rightarrow> 'a list" where
  \<comment> \<open>Sorts the whole range; equivalent elements end in reverse order.\<close>
  "reversing_psort cmp m xs = foldr (insert_by cmp) (rev xs) []"

subsection \<open>The sorter of SQLite\<close>


definition stable_sorter :: row_sorter where
  \<comment> \<open>Sorts by insertion; rows of equal keys keep their table order.\<close>
  "stable_sorter before xs = foldr (insert_by before) xs []"

subsection \<open>The partial sort of the GNU C++ library\<close>

text \<open>
  \<open>std::partial_sort\<close> as libstdc++ implements it (\<open>bits/stl_algo.h\<close>, \<open>bits/stl_heap.h\<close>):
  \<open>__heap_select\<close> builds a heap of the first \<open>middle\<close> elements and exchanges its top
  with every later element that has to come before it, then \<open>__sort_heap\<close> sorts the
  heap. The range is a list, an iterator its position.
\<close>

function push_heap :: "('a \<Rightarrow> 'a \<Rightarrow> bool) \<Rightarrow> 'a list \<Rightarrow> nat \<Rightarrow> nat \<Rightarrow> 'a \<Rightarrow> 'a list" where
  \<comment> \<open>\<open>__push_heap\<close>: the hole moves up while the parent has to come before the value.\<close>
  "push_heap cmp xs holeIndex topIndex v =
     (let parent = (holeIndex - 1) div 2
      in if topIndex < holeIndex \<and> cmp (xs ! parent) v
         then push_heap cmp (xs[holeIndex := xs ! parent]) parent topIndex v
         else xs[holeIndex := v])"
  by pat_completeness auto
termination
  by (relation "measure (\<lambda>(cmp, xs, holeIndex, topIndex, v). holeIndex)") auto

declare push_heap.simps [simp del]

function sift_down :: "('a \<Rightarrow> 'a \<Rightarrow> bool) \<Rightarrow> 'a list \<Rightarrow> nat \<Rightarrow> nat \<Rightarrow> 'a list \<times> nat" where
  \<comment> \<open>The first loop of \<open>__adjust_heap\<close>: the hole (\<open>secondChild\<close>) moves down to the child
      that does not have to come before the other.\<close>
  "sift_down cmp xs secondChild len =
     (if secondChild < (len - 1) div 2
      then let right = 2 * (secondChild + 1);
               child = (if cmp (xs ! right) (xs ! (right - 1)) then right - 1 else right)
           in sift_down cmp (xs[secondChild := xs ! child]) child len
      else (xs, secondChild))"
  by pat_completeness auto
termination
  by (relation "measure (\<lambda>(cmp, xs, secondChild, len). len - secondChild)") auto

declare sift_down.simps [simp del]

definition adjust_heap :: "('a \<Rightarrow> 'a \<Rightarrow> bool) \<Rightarrow> 'a list \<Rightarrow> nat \<Rightarrow> nat \<Rightarrow> 'a \<Rightarrow> 'a list" where
  \<comment> \<open>\<open>__adjust_heap(first, holeIndex, len, value, cmp)\<close>; the second step is the case
      \<open>(len & 1) == 0 && secondChild == (len - 2) / 2\<close> of a last parent with one child.\<close>
  "adjust_heap cmp xs holeIndex len v =
     (let (xs1, secondChild) = sift_down cmp xs holeIndex len;
          (xs2, hole) =
            (if even len \<and> 2 \<le> len \<and> secondChild = (len - 2) div 2
             then (xs1[secondChild := xs1 ! (2 * (secondChild + 1) - 1)],
                   2 * (secondChild + 1) - 1)
             else (xs1, secondChild))
      in push_heap cmp xs2 hole holeIndex v)"

definition pop_heap :: "('a \<Rightarrow> 'a \<Rightarrow> bool) \<Rightarrow> 'a list \<Rightarrow> nat \<Rightarrow> nat \<Rightarrow> 'a list" where
  \<comment> \<open>\<open>__pop_heap(first, first + len, first + result, cmp)\<close>: the top goes to \<open>result\<close> and
      the value that was there goes into the heap.\<close>
  "pop_heap cmp xs len result =
     (let v = xs ! result in adjust_heap cmp (xs[result := xs ! 0]) 0 len v)"

definition make_heap :: "('a \<Rightarrow> 'a \<Rightarrow> bool) \<Rightarrow> 'a list \<Rightarrow> nat \<Rightarrow> 'a list" where
  \<comment> \<open>\<open>__make_heap\<close> on the first \<open>len\<close> elements: \<open>parent\<close> runs from \<open>(len - 2) / 2\<close> down
      to 0.\<close>
  "make_heap cmp xs len =
     (if len < 2 then xs
      else foldl (\<lambda>ys parent. adjust_heap cmp ys parent len (ys ! parent)) xs
             (rev [0..<Suc ((len - 2) div 2)]))"

definition heap_select :: "('a \<Rightarrow> 'a \<Rightarrow> bool) \<Rightarrow> 'a list \<Rightarrow> nat \<Rightarrow> 'a list" where
  \<comment> \<open>\<open>__heap_select(first, first + middle, last, cmp)\<close>.\<close>
  "heap_select cmp xs middle =
     foldl (\<lambda>ys i. if cmp (ys ! i) (ys ! 0) then pop_heap cmp ys middle i else ys)
       (make_heap cmp xs middle) [middle..<length xs]"

definition sort_heap :: "('a \<Rightarrow> 'a \<Rightarrow> bool) \<Rightarrow> 'a list \<Rightarrow> nat \<Rightarrow> 'a list" where
  \<comment> \<open>\<open>__sort_heap\<close> on the first \<open>len\<close> elements: the top goes to the last place of a
      heap that shrinks by one until one element is left.\<close>
  "sort_heap cmp xs len = foldl (\<lambda>ys l. pop_heap cmp ys l l) xs (rev [1..<len])"

definition heap_psort :: "('a \<Rightarrow> 'a \<Rightarrow> bool) \<Rightarrow> nat \<Rightarrow> 'a list \<Rightarrow> 'a list" where
  \<comment> \<open>\<open>std::partial_sort(first, first + m, last, cmp)\<close>.\<close>
  "heap_psort cmp m xs = sort_heap cmp (heap_select cmp xs m) m"

subsection \<open>RecommendationAgent\<close>

definition getRecentInteractions ::
  "row_sorter \<Rightarrow> database \<Rightarrow> string \<Rightarrow> int \<Rightarrow> error + string list" where
  \<comment> \<open>\<open>"SELECT product_id FROM interactions WHERE customer_id = '" + customerId +
      "' ORDER BY timestamp DESC LIMIT " + to_string(limit)\<close>.\<close>
  "getRecentInteractions sorter db customerId limit =
     (case spliced_literal customerId of
        Other_statement \<Rightarrow> Inl NotModelled
      | Syntax_error \<Rightarrow> Inr []
      | Literal cid \<Rightarrow>
          Inr (map i_product_id
                 (sql_limit limit
                    (order_by_desc sorter i_timestamp
                       (filter (\<lambda>r. i_customer_id r = cid) (interactions db))))))"

definition segment_purchase_count :: "database \<Rightarrow> string \<Rightarrow> string \<Rightarrow> nat" where
  \<comment> \<open>\<open>COUNT(pu.purchase_id)\<close> in the group of one product: the purchases of the product
      joined with the customers of the segment.\<close>
  "segment_purchase_count db seg pid =
     length
       (concat
          (map (\<lambda>pu. filter (\<lambda>c. customer_id c = pu_customer_id pu \<and> segment c = seg)
                       (customers db))
             (filter (\<lambda>pu. pu_product_id pu = pid) (purchases db))))"

definition getSegmentRecommendations ::
  "row_sorter \<Rightarrow> database \<Rightarrow> string \<Rightarrow> int \<Rightarrow> error + string list" where
  \<comment> \<open>\<open>"SELECT p.product_id FROM products p JOIN purchases pu ... JOIN customers c ...
      WHERE c.segment = '" + segment + "' GROUP BY p.product_id
      ORDER BY COUNT(pu.purchase_id) DESC LIMIT " + to_string(topN)\<close>.\<close>
  "getSegmentRecommendations sorter db seg topN =
     (case spliced_literal seg of
        Other_statement \<Rightarrow> Inl NotModelled
      | Syntax_error \<Rightarrow> Inr []
      | Literal s \<Rightarrow>
          Inr (sql_limit topN
                 (order_by_desc sorter (segment_purchase_count db s)
                    (remdups
                       (filter (\<lambda>pid. 0 < segment_purchase_count db s pid)
                          (map product_id (products db)))))))"

definition getFallbackRecommendations :: "row_sorter \<Rightarrow> database \<Rightarrow> int \<Rightarrow> string list" where
  \<comment> \<open>\<open>"SELECT product_id FROM products ORDER BY popularity_score DESC LIMIT " +
      to_string(topN)\<close>.\<close>
  "getFallbackRecommendations sorter db topN =
     map product_id (sql_limit topN (order_by_desc sorter popularity_score (products db)))"

fun gather_similar ::
  "((nat \<Rightarrow> nat \<Rightarrow> bool) \<Rightarrow> nat \<Rightarrow> nat list \<Rightarrow> nat list) \<Rightarrow> product_agent \<Rightarrow> int \<Rightarrow> string list
     \<Rightarrow> error + string list" where
  \<comment> \<open>The loop over \<open>recentProducts\<close> that appends every lookup to
      \<open>similarProducts\<close>.\<close>
  "gather_similar psort agent topN [] = Inr []"
| "gather_similar psort agent topN (productId # rest) =
     (case getSimilarProducts psort agent productId topN of
        Inl e \<Rightarrow> Inl e
      | Inr similar \<Rightarrow>
          (case gather_similar psort agent topN rest of
             Inl e \<Rightarrow> Inl e
           | Inr others \<Rightarrow> Inr (similar @ others)))"

definition dedup_and_limit :: "string list \<Rightarrow> int \<Rightarrow> string list" where
  \<comment> \<open>\<open>sort\<close>, \<open>erase(unique(...))\<close>, and \<open>resize(topN)\<close> under
      \<open>similarProducts.size() > topN\<close>, a comparison in \<open>size_t\<close>.\<close>
  "dedup_and_limit similarProducts topN =
     (let uniq = remdups_adj (sort similarProducts)
      in if topN mod 2 ^ 64 < int (length uniq) then take (nat (topN mod 2 ^ 64)) uniq
         else uniq)"

definition lower_tiers :: "row_sorter \<Rightarrow> database \<Rightarrow> string \<Rightarrow> int \<Rightarrow> error + string list" where
  \<comment> \<open>Strategy 2 and strategy 3: the purchases of the segment, and the popular products
      where there are none.\<close>
  "lower_tiers sorter db seg topN =
     (case getSegmentRecommendations sorter db seg topN of
        Inl e \<Rightarrow> Inl e
      | Inr segmentProducts \<Rightarrow>
          if segmentProducts \<noteq> [] then Inr segmentProducts
          else Inr (getFallbackRecommendations sorter db topN))"

definition getProfile :: "database \<Rightarrow> string \<Rightarrow> error + customer_row list" where
  \<comment> \<open>\<open>db.executeQuery("SELECT segment, preferences FROM customers WHERE customer_id = '"
      + customerId + "'")\<close>.\<close>
  "getProfile db customerId =
     (case spliced_literal customerId of
        Other_statement \<Rightarrow> Inl NotModelled
      | Syntax_error \<Rightarrow> Inr []
      | Literal cid \<Rightarrow> Inr (filter (\<lambda>c. customer_id c = cid) (customers db)))"

definition getRecommendations ::
  "((nat \<Rightarrow> nat \<Rightarrow> bool) \<Rightarrow> nat \<Rightarrow> nat list \<Rightarrow> nat list) \<Rightarrow> row_sorter \<Rightarrow> database
     \<Rightarrow> product_agent \<Rightarrow> string \<Rightarrow> int \<Rightarrow> error + string list" where
  "getRecommendations psort sorter db agent customerId topN =
     (case getProfile db customerId of
        Inl e \<Rightarrow> Inl e
      | Inr profile \<Rightarrow>
          if profile = [] then Inr (getFallbackRecommendations sorter db topN)
          else
            let seg = segment (hd profile)
            in case getRecentInteractions sorter db customerId 3 of
                 Inl e \<Rightarrow> Inl e
               | Inr recentProducts \<Rightarrow>
                   if recentProducts \<noteq> [] then
                     (case gather_similar psort agent topN recentProducts of
                        Inl e \<Rightarrow> Inl e
                      | Inr similarProducts \<Rightarrow>
                          if similarProducts \<noteq> []
                          then Inr (dedup_and_limit similarProducts topN)
                          else lower_tiers sorter db seg topN)
                   else lower_tiers sorter db seg topN)"

subsection \<open>SegmentationAgent::simpleKMeans\<close>

text \<open>
  Every feature vector has the dimension of \<open>features[0]\<close>: the only caller builds each
  from the same four columns. The embedding follows the source on such batches.
\<close>

record arithmetic =
  d_add :: "dbl \<Rightarrow> dbl \<Rightarrow> dbl"
  d_sub :: "dbl \<Rightarrow> dbl \<Rightarrow> dbl"
  d_pow2 :: "dbl \<Rightarrow> dbl"
  d_div_int :: "dbl \<Rightarrow> int \<Rightarrow> dbl"

text \<open>
  The operations on doubles that round: \<open>d_add a b\<close> is \<open>a + b\<close>, \<open>d_sub a b\<close> is
  \<open>a - b\<close>, \<open>d_pow2 a\<close> is \<open>pow(a, 2)\<close>, and \<open>d_div_int a n\<close> is \<open>a / n\<close> for an \<open>int n\<close>.
\<close>

definition dbl_max :: real where
  \<comment> \<open>\<open>numeric_limits<double>::max()\<close>.\<close>
  "dbl_max = (2 - 1 / 2 ^ 52) * 2 ^ 1023"

definition squared_distance :: "arithmetic \<Rightarrow> dbl list \<Rightarrow> dbl list \<Rightarrow> dbl" where
  \<comment> \<open>\<open>distance += pow(features[i][d] - centroids[j][d], 2)\<close> over the dimensions, from
      \<open>distance = 0.0\<close>.\<close>
  "squared_distance ar x c =
     foldl (\<lambda>acc (a, b). d_add ar acc (d_pow2 ar (d_sub ar a b))) (Fin 0) (zip x c)"

definition nearest_centroid :: "arithmetic \<Rightarrow> dbl list list \<Rightarrow> nat \<Rightarrow> dbl list \<Rightarrow> nat" where
  \<comment> \<open>The loop over \<open>j\<close>: \<open>bestCluster\<close> starts at 0, \<open>bestDistance\<close> at the largest
      double, and only \<open>distance < bestDistance\<close> replaces them.\<close>
  "nearest_centroid ar centroids k x =
     fst (foldl
            (\<lambda>(bestCluster, bestDistance) j.
               let distance = squared_distance ar x (centroids ! j)
               in if dgt bestDistance distance then (j, distance)
                  else (bestCluster, bestDistance))
            (0, Fin dbl_max) [0..<k])"

definition assign_clusters ::
  "arithmetic \<Rightarrow> dbl list list \<Rightarrow> nat \<Rightarrow> dbl list list \<Rightarrow> nat list" where
  "assign_clusters ar centroids k features = map (nearest_centroid ar centroids k) features"

definition update_centroids ::
  "arithmetic \<Rightarrow> dbl list list \<Rightarrow> nat list \<Rightarrow> nat \<Rightarrow> dbl list list" where
  \<comment> \<open>\<open>newCentroids\<close> starts as \<open>k\<close> zero vectors; every point is added, in the order of
      the batch, to the sum of its cluster, and a sum is divided by its count only where
      \<open>counts[j] > 0\<close>.\<close>
  "update_centroids ar features clusters k =
     map (\<lambda>j.
            let members = map fst (filter (\<lambda>(x, c). c = j) (zip features clusters));
                total = foldl (map2 (d_add ar)) (replicate (length (hd features)) (Fin 0)) members
            in if 0 < length members
               then map (\<lambda>s. d_div_int ar s (int (length members))) total
               else total)
       [0..<k]"





subsection \<open>The arithmetic of IEEE 754 doubles\<close>

text \<open>
  Round to nearest, ties to even, on 53 bits of precision with exponents from -1022
  to 1023. The two zeros are one value: the loop never divides by a double and never
  looks at the sign of a zero.
\<close>

definition round_even :: "real \<Rightarrow> int" where
  \<comment> \<open>The nearest integer; of two nearest integers the even one.\<close>
  "round_even y =
     (let f = \<lfloor>y\<rfloor>; r = y - of_int f
      in if r < 1 / 2 then f else if 1 / 2 < r then f + 1 else if even f then f else f + 1)"

definition binade :: "real \<Rightarrow> int" where
  \<comment> \<open>The exponent \<open>e\<close> with \<open>2^e \<le> |x| < 2^(e+1)\<close>, and -1022 for the subnormal \<open>x\<close>.\<close>
  "binade x = max \<lfloor>log 2 \<bar>x\<bar>\<rfloor> (- 1022)"

definition to_double :: "real \<Rightarrow> dbl" where
  \<comment> \<open>The double that an operation returns for the exact result \<open>x\<close>: the nearest
      multiple of the unit in the last place, and an infinity beyond the largest
      double.\<close>
  "to_double x =
     (if x = 0 then Fin 0
      else let q = 2 powr real_of_int (binade x - 52);
               y = q * of_int (round_even (x / q))
           in if dbl_max < \<bar>y\<bar> then (if 0 < x then PInf else NInf) else Fin y)"

fun plus64 :: "dbl \<Rightarrow> dbl \<Rightarrow> dbl" where
  "plus64 (Fin a) (Fin b) = to_double (a + b)"
| "plus64 NaN _ = NaN"
| "plus64 _ NaN = NaN"
| "plus64 PInf NInf = NaN"
| "plus64 NInf PInf = NaN"
| "plus64 PInf _ = PInf"
| "plus64 _ PInf = PInf"
| "plus64 NInf _ = NInf"
| "plus64 _ NInf = NInf"

fun negate64 :: "dbl \<Rightarrow> dbl" where
  "negate64 (Fin a) = Fin (- a)"
| "negate64 PInf = NInf"
| "negate64 NInf = PInf"
| "negate64 NaN = NaN"

fun square64 :: "dbl \<Rightarrow> dbl" where
  \<comment> \<open>\<open>pow(a, 2)\<close>: the rounded square.\<close>
  "square64 (Fin a) = to_double (a * a)"
| "square64 PInf = PInf"
| "square64 NInf = PInf"
| "square64 NaN = NaN"

fun divide64 :: "dbl \<Rightarrow> int \<Rightarrow> dbl" where
  \<comment> \<open>\<open>a / n\<close>; an \<open>int\<close> converts to a double without rounding.\<close>
  "divide64 (Fin a) n = (if n = 0 then ddiv a 0 else to_double (a / of_int n))"
| "divide64 PInf n = (if n < 0 then NInf else PInf)"
| "divide64 NInf n = (if n < 0 then PInf else NInf)"
| "divide64 NaN n = NaN"

definition binary64 :: arithmetic where
  "binary64 =
     \<lparr>d_add = plus64, d_sub = (\<lambda>a b. plus64 a (negate64 b)), d_pow2 = square64,
      d_div_int = divide64\<rparr>"

definition grid_batch :: "dbl list list" where
  \<comment> \<open>Four points on a line, two units apart, where doubles are two units apart.\<close>
  "grid_batch = [[Fin (2 ^ 53)], [Fin (2 ^ 53 + 2)], [Fin (2 ^ 53 + 4)], [Fin (2 ^ 53 + 6)]]"


subsection \<open>A sample store\<close>

definition demo_products :: "product_row list" where
  "demo_products =
     [\<lparr>product_id = ''P1001'', name = ''Headphones'', description = ''wireless'',
        tags = ''audio'', popularity_score = 85 / 10\<rparr>,
      \<lparr>product_id = ''P1002'', name = ''Smartphone'', description = ''android'',
        tags = ''mobile'', popularity_score = 92 / 10\<rparr>,
      \<lparr>product_id = ''P1003'', name = ''Shoes'', description = ''running'',
        tags = ''fitness'', popularity_score = 78 / 10\<rparr>]"

definition demo_hasher :: "string \<Rightarrow> nat" where
  \<comment> \<open>A hash function with small values on the three product texts.\<close>
  "demo_hasher txt =
     (if txt = ''Headphones wireless audio'' then 2
      else if txt = ''Smartphone android mobile'' then 3
      else 4)"

definition demo_db :: database where
  "demo_db =
     \<lparr>customers = [\<lparr>customer_id = ''C1001'', segment = ''new'', preferences = ''{}''\<rparr>],
      products = demo_products,
      interactions =
        [\<lparr>i_customer_id = ''C1001'', i_product_id = ''P1002'',
           i_timestamp = ''2024-01-01 10:00:00''\<rparr>,
         \<lparr>i_customer_id = ''C1001'', i_product_id = ''P1001'',
           i_timestamp = ''2024-01-02 10:00:00''\<rparr>],
      purchases = []\<rparr>"

definition empty_agent :: product_agent where
  "empty_agent = \<lparr>productIds = [], productVectors = []\<rparr>"

definition demo_agent :: product_agent where
  \<comment> \<open>The agent as its constructor leaves it on the sample store.\<close>
  "demo_agent = prepareProductVectors demo_hasher demo_db empty_agent"

definition hash_vector :: "nat \<Rightarrow> real list" where
  \<comment> \<open>The vector of a text whose hash is \<open>h\<close>.\<close>
  "hash_vector h = createTextVector (\<lambda>_. h) []"

definition twin_db :: database where
  \<comment> \<open>Four products with the same name, description and tags.\<close>
  "twin_db =
     \<lparr>customers = [],
      products =
        map (\<lambda>pid. \<lparr>product_id = pid, name = ''Mug'', description = ''ceramic'',
                     tags = ''kitchen'', popularity_score = 5\<rparr>)
          [''T1'', ''T2'', ''T3'', ''T4''],
      interactions = [],
      purchases = []\<rparr>"

definition twin_agent :: product_agent where
  "twin_agent = prepareProductVectors demo_hasher twin_db empty_agent"

subsection \<open>The personalized tier in the words of the specification\<close>

definition dedup_first_seen :: "'a list \<Rightarrow> 'a list" where
  \<comment> \<open>Every element once, at the place of its first occurrence.\<close>
  "dedup_first_seen xs = rev (remdups (rev xs))"

definition spec_personalized_tier :: "string list list \<Rightarrow> int \<Rightarrow> string list" where
  \<comment> \<open>"Union results, de-duplicate preserving first-seen order, truncate to topN."\<close>
  "spec_personalized_tier lookups topN = take (nat topN) (dedup_first_seen (concat lookups))"

subsection \<open>A store of four products of different texts\<close>

definition shelf_products :: "product_row list" where
  "shelf_products =
     [\<lparr>product_id = ''P2001'', name = ''Lamp'', description = ''desk'',
        tags = ''light'', popularity_score = 4\<rparr>,
      \<lparr>product_id = ''P2002'', name = ''Chair'', description = ''office'',
        tags = ''seat'', popularity_score = 3\<rparr>,
      \<lparr>product_id = ''P2003'', name = ''Table'', description = ''oak'',
        tags = ''wood'', popularity_score = 2\<rparr>,
      \<lparr>product_id = ''P2004'', name = ''Shelf'', description = ''wall'',
        tags = ''steel'', popularity_score = 1\<rparr>]"

definition shelf_hasher :: "string \<Rightarrow> nat" where
  \<comment> \<open>A hash function with small values on the four product texts.\<close>
  "shelf_hasher txt =
     (if txt = ''Lamp desk light'' then 2
      else if txt = ''Chair office seat'' then 3
      else if txt = ''Table oak wood'' then 4
      else 5)"

definition shelf_db :: database where
  "shelf_db = \<lparr>customers = [], products = shelf_products, interactions = [], purchases = []\<rparr>"

definition shelf_agent :: product_agent where
  "shelf_agent = prepareProductVectors shelf_hasher shelf_db empty_agent"

subsection \<open>A store with a quote in a customer id\<close>




section \<open>Properties\<close>

subsection \<open>Searching and sorting\<close>

lemma find_pos_None: "find_pos xs x = None \<longleftrightarrow> x \<notin> set xs"
  by (induction xs) auto

lemma find_pos_Some: "find_pos xs x = Some i \<Longrightarrow> i < length xs \<and> xs ! i = x"
  by (induction xs arbitrary: i) (auto split: if_splits)

lemma mset_insert_by: "mset (insert_by cmp x xs) = add_mset x (mset xs)"
  by (induction xs) auto

lemma mset_foldr_insert_by: "mset (foldr (insert_by cmp) xs []) = mset xs"
  by (induction xs) (auto simp: mset_insert_by)

lemma set_insert_by: "set (insert_by cmp x xs) = insert x (set xs)"
  by (induction xs) auto

lemma swo_asym:
  assumes "strict_weak_order_on A cmp" "a \<in> A" "b \<in> A" "cmp a b"
  shows "\<not> cmp b a"
  using assms unfolding strict_weak_order_on_def by blast

lemma swo_neg_trans:
  assumes swo: "strict_weak_order_on A cmp" and mem: "a \<in> A" "b \<in> A" "c \<in> A"
    and ab: "\<not> cmp a b" and bc: "\<not> cmp b c"
  shows "\<not> cmp a c"
proof
  assume ac: "cmp a c"
  have trans: "\<And>x y z. x \<in> A \<Longrightarrow> y \<in> A \<Longrightarrow> z \<in> A \<Longrightarrow> cmp x y \<Longrightarrow> cmp y z \<Longrightarrow> cmp x z"
    using swo unfolding strict_weak_order_on_def by blast
  have eqv: "\<And>x y z. x \<in> A \<Longrightarrow> y \<in> A \<Longrightarrow> z \<in> A \<Longrightarrow> \<not> cmp x y \<Longrightarrow> \<not> cmp y x \<Longrightarrow>
      \<not> cmp y z \<Longrightarrow> \<not> cmp z y \<Longrightarrow> \<not> cmp x z"
    using swo unfolding strict_weak_order_on_def by blast
  have ba: "\<not> cmp b a"
    using trans [OF mem(2) mem(1) mem(3) _ ac] bc by blast
  have cb: "\<not> cmp c b"
    using trans [OF mem(1) mem(3) mem(2) ac] ab by blast
  show False
    using eqv [OF mem ab ba bc cb] ac by blast
qed

lemma sorted_insert_by:
  assumes swo: "strict_weak_order_on A cmp" and x: "x \<in> A"
  shows "set xs \<subseteq> A \<Longrightarrow> sorted_wrt (\<lambda>a b. \<not> cmp b a) xs
    \<Longrightarrow> sorted_wrt (\<lambda>a b. \<not> cmp b a) (insert_by cmp x xs)"
proof (induction xs)
  case Nil
  then show ?case by simp
next
  case (Cons y ys)
  show ?case
  proof (cases "cmp y x")
    case True
    have "\<not> cmp x y"
      using swo_asym [OF swo _ x True] Cons.prems(1) by simp
    moreover have "\<forall>z\<in>set ys. \<not> cmp z y"
      using Cons.prems(2) by simp
    ultimately show ?thesis
      using True Cons by (auto simp: set_insert_by)
  next
    case False
    have "\<not> cmp z x" if "z \<in> set ys" for z
    proof -
      have "\<not> cmp z y" using Cons.prems(2) that by simp
      then show ?thesis
        using swo_neg_trans [OF swo _ _ x, of z y] False that Cons.prems(1) by auto
    qed
    then show ?thesis
      using False Cons.prems(2) by auto
  qed
qed

lemma sorted_foldr_insert_by:
  assumes swo: "strict_weak_order_on A cmp"
  shows "set xs \<subseteq> A \<Longrightarrow> sorted_wrt (\<lambda>a b. \<not> cmp b a) (foldr (insert_by cmp) xs [])"
proof (induction xs)
  case Nil
  then show ?case by simp
next
  case (Cons x xs)
  have "set (foldr (insert_by cmp) xs []) \<subseteq> A"
    using Cons.prems mset_foldr_insert_by [of cmp xs] by (metis set_mset_mset set_subset_Cons subset_trans)
  then show ?case
    using Cons sorted_insert_by [OF swo, of x "foldr (insert_by cmp) xs []"] by simp
qed

lemma sorted_wrt_take_drop:
  assumes "sorted_wrt P ys"
  shows "sorted_wrt P (take m ys) \<and> (\<forall>a\<in>set (take m ys). \<forall>b\<in>set (drop m ys). P a b)"
proof -
  have "sorted_wrt P (take m ys @ drop m ys)" using assms by simp
  then show ?thesis unfolding sorted_wrt_append by blast
qed

lemma insertion_psort_contract: "partial_sort_contract insertion_psort"
  unfolding partial_sort_contract_def insertion_psort_def
  using sorted_wrt_take_drop [OF sorted_foldr_insert_by]
  by (simp add: mset_foldr_insert_by) blast

lemma reversing_psort_contract: "partial_sort_contract reversing_psort"
  unfolding partial_sort_contract_def reversing_psort_def
proof (intro allI impI conjI)
  fix cmp :: "nat \<Rightarrow> nat \<Rightarrow> bool" and m :: nat and xs :: "nat list"
  show "mset (foldr (insert_by cmp) (rev xs) []) = mset xs"
    by (simp add: mset_foldr_insert_by)
  assume "strict_weak_order_on (set xs) cmp"
  then have "sorted_wrt (\<lambda>a b. \<not> cmp b a) (foldr (insert_by cmp) (rev xs) [])"
    using sorted_foldr_insert_by [of "set xs" cmp "rev xs"] by simp
  from sorted_wrt_take_drop [OF this, of m]
  show "sorted_wrt (\<lambda>a b. \<not> cmp b a) (take m (foldr (insert_by cmp) (rev xs) []))"
    and "\<forall>a\<in>set (take m (foldr (insert_by cmp) (rev xs) [])).
       \<forall>b\<in>set (drop m (foldr (insert_by cmp) (rev xs) [])). \<not> cmp b a"
    by blast+
qed

subsection \<open>The sample agent, evaluated\<close>

lemma createTextVector_hash_vector: "createTextVector hasher txt = hash_vector (hasher txt)"
  by (simp add: createTextVector_def hash_vector_def)

lemma demo_agent_eq:
  "demo_agent = \<lparr>productIds = [''P1001'', ''P1002'', ''P1003''],
     productVectors = [hash_vector 2, hash_vector 3, hash_vector 4]\<rparr>"
  by (simp add: demo_agent_def prepareProductVectors_def demo_db_def demo_products_def
      empty_agent_def createTextVector_hash_vector demo_hasher_def)

lemma ip22: "inner_product (hash_vector 2) (hash_vector 2) 0 = 504 / 10000"
  unfolding hash_vector_def createTextVector_def inner_product_def by code_simp
lemma ip23: "inner_product (hash_vector 2) (hash_vector 3) 0 = 750 / 10000"
  unfolding hash_vector_def createTextVector_def inner_product_def by code_simp
lemma ip24: "inner_product (hash_vector 2) (hash_vector 4) 0 = 994 / 10000"
  unfolding hash_vector_def createTextVector_def inner_product_def by code_simp
lemma ip32: "inner_product (hash_vector 3) (hash_vector 2) 0 = 750 / 10000"
  unfolding hash_vector_def createTextVector_def inner_product_def by code_simp
lemma ip33: "inner_product (hash_vector 3) (hash_vector 3) 0 = 1126 / 10000"
  unfolding hash_vector_def createTextVector_def inner_product_def by code_simp
lemma ip34: "inner_product (hash_vector 3) (hash_vector 4) 0 = 1488 / 10000"
  unfolding hash_vector_def createTextVector_def inner_product_def by code_simp
lemma ip44: "inner_product (hash_vector 4) (hash_vector 4) 0 = 1985 / 10000"
  unfolding hash_vector_def createTextVector_def inner_product_def by code_simp

lemmas demo_ips = ip22 ip23 ip24 ip32 ip33 ip34 ip44

lemma cosine_sqrt:
  assumes "0 < inner_product u u 0" "0 < inner_product v v 0" "0 \<le> inner_product u v 0"
  shows "cosine u v =
    Fin (sqrt ((inner_product u v 0)\<^sup>2 / (inner_product u u 0 * inner_product v v 0)))"
proof -
  have "inner_product u v 0 / (sqrt (inner_product u u 0) * sqrt (inner_product v v 0)) =
    sqrt ((inner_product u v 0)\<^sup>2 / (inner_product u u 0 * inner_product v v 0))"
    using assms by (simp add: real_sqrt_divide real_sqrt_mult)
  then show ?thesis
    using assms by (simp add: cosine_def ddiv_def Let_def)
qed

lemma demo_cosines:
  "cosine (hash_vector 2) (hash_vector 2) = Fin 1"
  "cosine (hash_vector 2) (hash_vector 3) = Fin (sqrt (562500 / 567504))"
  "cosine (hash_vector 2) (hash_vector 4) = Fin (sqrt (988036 / 1000440))"
  "cosine (hash_vector 3) (hash_vector 2) = Fin (sqrt (562500 / 567504))"
  "cosine (hash_vector 3) (hash_vector 3) = Fin 1"
  "cosine (hash_vector 3) (hash_vector 4) = Fin (sqrt (2214144 / 2235110))"
  by (simp_all add: cosine_sqrt demo_ips power2_eq_square)

lemma upt2: "[0..<2] = [0, 1]"
  by code_simp

lemma upt3: "[0..<3] = [0, 1, 2]"
  by code_simp

lemma demo_similar_P1001:
  "getSimilarProducts insertion_psort demo_agent ''P1001'' 2 = Inr [''P1002'']"
  by (simp add: getSimilarProducts_def demo_agent_eq calculateSimilarities_def upt3
        insertion_psort_def demo_cosines)

lemma demo_similar_P1002:
  "getSimilarProducts insertion_psort demo_agent ''P1002'' 2 = Inr [''P1001'']"
  by (simp add: getSimilarProducts_def demo_agent_eq calculateSimilarities_def upt3
        insertion_psort_def demo_cosines)

lemma length_calculateSimilarities [simp]:
  "length (calculateSimilarities agent vec) = length (productVectors agent)"
  by (simp add: calculateSimilarities_def)

lemma result_loop_members:
  "result_loop ids idx xs = Inr r \<Longrightarrow>
     \<forall>p\<in>set r. \<exists>i\<in>set xs. i \<noteq> idx \<and> i < length ids \<and> p = ids ! i"
  by (induction xs arbitrary: r) (auto split: if_splits sum.splits)

subsection \<open>C5: a query for an id that is not in the index\<close>

text \<open>
  C5 (as amended). For every index and every product id that is not in it,
  \<open>getSimilarProducts\<close> returns the empty sequence, an ordinary result: the source has no
  error for a missing id (\<open>if (it == productIds.end()) return {};\<close>).
\<close>
theorem getSimilarProducts_absent_id:
  assumes "productId \<notin> set (productIds agent)"
  shows "getSimilarProducts psort agent productId topN = Inr []"
  using assms by (simp add: getSimilarProducts_def find_pos_None [THEN iffD2])

theorem getSimilarProducts_absent_id_witness:
  "''P9999'' \<notin> set (productIds demo_agent) \<and>
   getSimilarProducts reversing_psort demo_agent ''P9999'' 5 = Inr []"
  using getSimilarProducts_absent_id [of "''P9999''" demo_agent reversing_psort 5]
  by (simp add: demo_agent_eq)

theorem absent_id_is_no_error:
  "''P9999'' \<notin> set (productIds demo_agent) \<and>
   \<not> isl (getSimilarProducts insertion_psort demo_agent ''P9999'' 2) \<and>
   getSimilarProducts insertion_psort demo_agent ''P9999'' 2 = Inr []"
  by (simp add: getSimilarProducts_def demo_agent_eq)

subsection \<open>C10: the bound of the partial sort\<close>

text \<open>
  C10. For a query \<open>getSimilarProducts(id, topN)\<close> whose id is in the index, the call
  stays in bounds only if the index holds at least \<open>topN + 1\<close> products: whenever it
  returns a result, \<open>topN + 1\<close> is at most the size of the index, and an index of
  between 1 and \<open>topN\<close> products puts the middle iterator \<open>begin + topN + 1\<close> past
  the end.
\<close>
theorem getSimilarProducts_needs_topN_plus_one:
  assumes "productId \<in> set (productIds agent)" and "productVectors agent \<noteq> []"
  shows "(\<forall>r. getSimilarProducts psort agent productId topN = Inr r \<longrightarrow>
            topN + 1 \<le> int (length (productVectors agent))) \<and>
         (int (length (productVectors agent)) \<le> topN \<longrightarrow>
            getSimilarProducts psort agent productId topN = Inl OutOfBounds)"
proof -
  from assms(1) obtain idx where idx: "find_pos (productIds agent) productId = Some idx"
    using find_pos_None [of "productIds agent" productId] by (cases "find_pos (productIds agent) productId") auto
  from assms(1) have ne: "productIds agent \<noteq> []" by auto
  show ?thesis
    using assms(2) ne idx by (auto simp: getSimilarProducts_def Let_def split: if_splits)
qed

theorem getSimilarProducts_needs_topN_plus_one_witness:
  "''P1001'' \<in> set (productIds demo_agent) \<and> productVectors demo_agent \<noteq> [] \<and>
   getSimilarProducts insertion_psort demo_agent ''P1001'' 2 = Inr [''P1002''] \<and>
   (2::int) + 1 \<le> int (length (productVectors demo_agent)) \<and>
   int (length (productVectors demo_agent)) \<le> 3 \<and>
   getSimilarProducts insertion_psort demo_agent ''P1001'' 3 = Inl OutOfBounds"
  using getSimilarProducts_needs_topN_plus_one [of "''P1001''" demo_agent insertion_psort 2]
    getSimilarProducts_needs_topN_plus_one [of "''P1001''" demo_agent insertion_psort 3]
    demo_similar_P1001
  by (simp add: demo_agent_eq)

subsection \<open>C2: the query is not among its neighbours\<close>

text \<open>
  C2. For every index with distinct product ids (\<open>product_id\<close> is the primary key of
  the table the index is built from) and every product id, a result of
  \<open>getSimilarProducts\<close> for that id never contains the id itself.
\<close>
theorem getSimilarProducts_excludes_query:
  assumes "distinct (productIds agent)"
    and "getSimilarProducts psort agent productId topN = Inr r"
  shows "productId \<notin> set r"
proof
  assume mem: "productId \<in> set r"
  then have r: "r \<noteq> []" by auto
  from assms(2) r obtain idx where idx: "find_pos (productIds agent) productId = Some idx"
    by (cases "find_pos (productIds agent) productId") (auto simp: getSimilarProducts_def split: if_splits)
  from assms(2) r idx obtain xs where loop: "result_loop (productIds agent) idx xs = Inr r"
    by (auto simp: getSimilarProducts_def Let_def split: if_splits)
  from result_loop_members [OF loop] mem obtain i where
    i: "i \<noteq> idx" "i < length (productIds agent)" "productId = productIds agent ! i"
    by blast
  from find_pos_Some [OF idx] have "idx < length (productIds agent)"
    "productIds agent ! idx = productId" by simp_all
  with i assms(1) show False
    by (simp add: nth_eq_iff_index_eq)
qed

theorem getSimilarProducts_excludes_query_witness:
  "distinct (productIds demo_agent) \<and>
   getSimilarProducts insertion_psort demo_agent ''P1002'' 2 = Inr [''P1001''] \<and>
   ''P1002'' \<notin> set [''P1001'']"
  using getSimilarProducts_excludes_query [of demo_agent insertion_psort "''P1002''" 2 "[''P1001'']"]
    demo_similar_P1002
  by (simp add: demo_agent_eq)

subsection \<open>C9: rebuilding twice\<close>

lemma prepareProductVectors_idem:
  "prepareProductVectors hasher db (prepareProductVectors hasher db agent) =
   prepareProductVectors hasher db agent"
  by (simp add: prepareProductVectors_def)

text \<open>
  C9. Rebuilding the index (\<open>prepareProductVectors\<close>) a second time on the same store
  changes no answer of \<open>getSimilarProducts\<close>: every query returns what it returned
  after the first rebuild.
\<close>
theorem rebuild_twice_same_neighbours:
  "getSimilarProducts psort
     (prepareProductVectors hasher db (prepareProductVectors hasher db agent)) productId topN =
   getSimilarProducts psort (prepareProductVectors hasher db agent) productId topN"
  by (simp add: prepareProductVectors_idem)

theorem rebuild_twice_same_neighbours_witness:
  "getSimilarProducts insertion_psort
     (prepareProductVectors demo_hasher demo_db (prepareProductVectors demo_hasher demo_db empty_agent))
     ''P1001'' 2 = Inr [''P1002'']"
  using rebuild_twice_same_neighbours [of insertion_psort demo_hasher demo_db empty_agent "''P1001''" 2]
    demo_similar_P1001
  by (simp add: demo_agent_def)

subsection \<open>C1: cosine similarity at a zero norm\<close>

lemma inner_product_sum_list:
  "inner_product u v init = init + sum_list (map (\<lambda>(a, b). a * b) (zip u v))"
proof -
  have "foldl (\<lambda>acc (a, b). acc + a * b) init ps = init + sum_list (map (\<lambda>(a, b). a * b) ps)"
    for ps :: "(real \<times> real) list"
    by (induction ps arbitrary: init) (auto simp: algebra_simps)
  then show ?thesis by (simp add: inner_product_def)
qed

lemma inner_product_self: "inner_product v v 0 = sum_list (map (\<lambda>a. a * a) v)"
  by (simp add: inner_product_sum_list zip_same_conv_map comp_def)

lemma inner_product_self_nonneg: "0 \<le> inner_product v v 0"
  by (auto simp: inner_product_self intro!: sum_list_nonneg)

lemma sum_list_all_zero: "\<forall>x\<in>set xs. x = (0::real) \<Longrightarrow> sum_list xs = 0"
  by (induction xs) auto

lemma zero_norm_zero_vector:
  assumes "inner_product v v 0 = 0"
  shows "\<forall>a\<in>set v. a = 0"
proof -
  have "sum_list (map (\<lambda>a. a * a) v) = 0" using assms by (simp add: inner_product_self)
  then have "\<forall>x\<in>set (map (\<lambda>a. a * a) v). x = 0"
    by (subst (asm) sum_list_nonneg_eq_0_iff) auto
  then show ?thesis by auto
qed

lemma zero_vector_dot:
  assumes "\<forall>a\<in>set u. a = 0"
  shows "inner_product u v 0 = 0" and "inner_product v u 0 = 0"
proof -
  have "\<forall>p\<in>set (zip u v). fst p = 0" using assms by (auto dest: set_zip_leftD)
  then have "\<forall>x\<in>set (map (\<lambda>(a, b). a * b) (zip u v)). x = 0" by auto
  then show "inner_product u v 0 = 0"
    by (simp add: inner_product_sum_list sum_list_all_zero del: set_map)
  have "\<forall>p\<in>set (zip v u). snd p = 0" using assms by (auto dest: set_zip_rightD)
  then have "\<forall>x\<in>set (map (\<lambda>(a, b). a * b) (zip v u)). x = 0" by auto
  then show "inner_product v u 0 = 0"
    by (simp add: inner_product_sum_list sum_list_all_zero del: set_map)
qed

lemma cosine_nonzero_norms:
  assumes "inner_product u u 0 \<noteq> 0" "inner_product v v 0 \<noteq> 0"
  shows "cosine u v =
    Fin (inner_product u v 0 / (sqrt (inner_product u u 0) * sqrt (inner_product v v 0)))"
  using assms by (simp add: cosine_def ddiv_def Let_def)

lemma cosine_zero_norm:
  assumes "inner_product u u 0 = 0 \<or> inner_product v v 0 = 0"
  shows "cosine u v = NaN"
proof -
  have "inner_product u v 0 = 0"
    using assms zero_vector_dot zero_norm_zero_vector by blast
  then show ?thesis
    using assms by (auto simp: cosine_def ddiv_def Let_def)
qed

text \<open>
  C1 (the code at the failing input). \<open>calculateSimilarities\<close> divides the dot product
  by the product of the norms without a guard. Whenever the query vector or the
  \<open>i\<close>-th indexed vector has zero norm, the \<open>i\<close>-th similarity is 0/0, that is NaN, not
  the 0 the specification requires.
\<close>
theorem zero_norm_similarity_is_NaN:
  assumes "i < length (productVectors agent)"
    and "inner_product vec vec 0 = 0 \<or>
         inner_product (productVectors agent ! i) (productVectors agent ! i) 0 = 0"
  shows "calculateSimilarities agent vec ! i = NaN"
  using assms by (simp add: calculateSimilarities_def cosine_zero_norm)

lemma ip00: "inner_product (hash_vector 0) (hash_vector 0) 0 = 0"
  unfolding hash_vector_def createTextVector_def inner_product_def by code_simp

theorem zero_norm_similarity_is_NaN_witness:
  "(0::nat) < length (productVectors (prepareProductVectors (\<lambda>_. 0) demo_db empty_agent)) \<and>
   inner_product (createTextVector (\<lambda>_. 0) ''Headphones wireless audio'')
     (createTextVector (\<lambda>_. 0) ''Headphones wireless audio'') 0 = 0 \<and>
   calculateSimilarities (prepareProductVectors (\<lambda>_. 0) demo_db empty_agent)
     (createTextVector (\<lambda>_. 0) ''Headphones wireless audio'') ! 0 = NaN"
  using zero_norm_similarity_is_NaN [of 0 "prepareProductVectors (\<lambda>_. 0) demo_db empty_agent"
      "createTextVector (\<lambda>_. 0) ''Headphones wireless audio''"]
  by (simp add: createTextVector_hash_vector ip00 prepareProductVectors_def demo_db_def
      demo_products_def)

subsection \<open>Spliced literals, the sorter of SQLite and the prefix of a partial sort\<close>

lemma unquote_no_quote: "sql_quote \<notin> set s \<Longrightarrow> unquote s = Some s"
  by (induction s rule: unquote.induct) auto

lemma spliced_literal_safe: "sql_safe s \<Longrightarrow> spliced_literal s = Literal s"
proof -
  assume safe: "sql_safe s"
  then have whole: "takeWhile (\<lambda>c. c \<noteq> sql_nul) s = s"
    by (auto simp: sql_safe_def takeWhile_eq_all_conv)
  show ?thesis
    unfolding spliced_literal_def whole
    using safe by (simp add: sql_safe_def unquote_no_quote)
qed



lemma getProfile_safe:
  "sql_safe customerId \<Longrightarrow>
     getProfile db customerId = Inr (filter (\<lambda>c. customer_id c = customerId) (customers db))"
  by (simp add: getProfile_def spliced_literal_safe)

lemma sql_safe_C1001 [simp]: "sql_safe ''C1001''" "sql_safe ''C9999''"
  by (simp_all add: sql_safe_def sql_quote_def sql_nul_def)

lemma strict_weak_order_on_key:
  fixes key :: "'a \<Rightarrow> 'k::linorder"
  assumes "\<forall>a\<in>A. \<forall>b\<in>A. cmp a b \<longleftrightarrow> key b < key a"
  shows "strict_weak_order_on A cmp"
  unfolding strict_weak_order_on_def using assms by (auto simp: not_less)




lemma result_loop_filter:
  "result_loop ids idx xs = Inr r \<Longrightarrow> r = map ((!) ids) (filter (\<lambda>i. i \<noteq> idx) xs)"
  by (induction xs arbitrary: r) (auto split: if_splits sum.splits)

lemma partial_sort_prefix:
  assumes sorted: "sorted_wrt P (take m ys)"
    and rest: "\<forall>a\<in>set (take m ys). \<forall>b\<in>set (drop m ys). P a b"
    and t: "t \<le> m"
  shows "sorted_wrt P (take t ys) \<and> (\<forall>a\<in>set (take t ys). \<forall>b\<in>set (drop t ys). P a b)"
proof -
  have take_t: "take t ys = take t (take m ys)" using t by (simp add: min_def)
  have "drop (t - length (take m ys)) (drop m ys) = drop m ys"
    using t by (cases "m \<le> length ys") (simp_all add: min_def)
  moreover have "drop t (take m ys @ drop m ys) =
      drop t (take m ys) @ drop (t - length (take m ys)) (drop m ys)"
    by (rule drop_append)
  ultimately have drop_t: "drop t ys = drop t (take m ys) @ drop m ys"
    by simp
  have "sorted_wrt P (take t (take m ys) @ drop t (take m ys))"
    using sorted by (simp only: append_take_drop_id)
  then have inner: "sorted_wrt P (take t (take m ys))"
    "\<forall>a\<in>set (take t (take m ys)). \<forall>b\<in>set (drop t (take m ys)). P a b"
    unfolding sorted_wrt_append by blast+
  have "set (take t (take m ys)) \<subseteq> set (take m ys)" by (meson set_take_subset)
  with rest have "\<forall>a\<in>set (take t (take m ys)). \<forall>b\<in>set (drop m ys). P a b" by blast
  with inner show ?thesis unfolding take_t drop_t by auto
qed

subsection \<open>C4: cold start\<close>









subsection \<open>C3: the personalized tier\<close>

lemma gather_similar_lookups:
  assumes "\<forall>p\<in>set ps. getSimilarProducts psort agent p topN = Inr (lookup p)"
  shows "gather_similar psort agent topN ps = Inr (concat (map lookup ps))"
  using assms by (induction ps) auto

lemma distinct_remdups_adj_sorted:
  fixes xs :: "'a::linorder list"
  shows "sorted xs \<Longrightarrow> distinct (remdups_adj xs)"
  by (induction xs rule: remdups_adj.induct) auto

lemma remdups_adj_sort:
  fixes xs :: "'a::linorder list"
  shows "remdups_adj (sort xs) = sorted_list_of_set (set xs)"
proof -
  have "sorted (remdups_adj (sort xs))" by (simp add: sorted_remdups_adj)
  moreover have "distinct (remdups_adj (sort xs))" by (simp add: distinct_remdups_adj_sorted)
  moreover have "set (remdups_adj (sort xs)) = set xs" by simp
  ultimately show ?thesis
    by (metis sorted_list_of_set.idem_if_sorted_distinct)
qed

lemma dedup_and_limit_eq:
  assumes "0 \<le> topN" "topN < 2 ^ 31"
  shows "dedup_and_limit xs topN = take (nat topN) (sorted_list_of_set (set xs))"
proof -
  have "topN mod 2 ^ 64 = topN" using assms by simp
  then show ?thesis
    by (simp add: dedup_and_limit_def remdups_adj_sort Let_def)
qed

lemma getSimilarProducts_nonpositive:
  assumes "getSimilarProducts psort agent p topN = Inr r" "topN \<le> 0"
  shows "r = []"
  using assms by (auto simp: getSimilarProducts_def Let_def split: if_splits option.splits)

text \<open>
  C3 (as amended). For every customer id without quote and NUL characters that has a
  profile, and whose recent interactions have lookups that all return and that are not
  all empty, \<open>getRecommendations\<close> returns the union of the per-interaction lookups
  without duplicates, in ascending order of the product ids as strings, cut to at most
  \<open>topN\<close> ids (\<open>topN\<close> in the range of \<open>int\<close>): the source removes duplicates with
  \<open>sort\<close> and \<open>unique\<close>, which gives up the first-seen order.
\<close>
theorem personalized_tier_is_sorted_union:
  fixes lookup :: "string \<Rightarrow> string list"
  assumes safe: "sql_safe customerId"
    and profile: "customerId \<in> set (map customer_id (customers db))"
    and recent: "getRecentInteractions sorter db customerId 3 = Inr recent"
    and lookups: "\<forall>p\<in>set recent. getSimilarProducts psort agent p topN = Inr (lookup p)"
    and nonempty: "(\<Union>p\<in>set recent. set (lookup p)) \<noteq> {}"
    and int_range: "topN < 2 ^ 31"
  shows "getRecommendations psort sorter db agent customerId topN =
    Inr (take (nat topN) (sorted_list_of_set (\<Union>p\<in>set recent. set (lookup p))))"
proof -
  let ?similar = "concat (map lookup recent)"
  have prof: "filter (\<lambda>c. customer_id c = customerId) (customers db) \<noteq> []"
    using profile by (auto simp: filter_empty_conv)
  have gather: "gather_similar psort agent topN recent = Inr ?similar"
    using lookups by (rule gather_similar_lookups)
  have set_similar: "set ?similar = (\<Union>p\<in>set recent. set (lookup p))" by auto
  with nonempty have ne: "?similar \<noteq> []" and rne: "recent \<noteq> []" by auto
  have pos: "0 \<le> topN"
  proof (rule ccontr)
    assume "\<not> 0 \<le> topN"
    then have "lookup p = []" if "p \<in> set recent" for p
      using lookups that getSimilarProducts_nonpositive [of psort agent p topN "lookup p"] by auto
    with nonempty show False by auto
  qed
  have "getRecommendations psort sorter db agent customerId topN =
      Inr (dedup_and_limit ?similar topN)"
    using prof gather ne rne
    by (simp add: getRecommendations_def Let_def getProfile_safe [OF safe] recent)
  then show ?thesis
    using dedup_and_limit_eq [OF pos int_range, of ?similar] set_similar by simp
qed

lemma demo_recent:
  "getRecentInteractions stable_sorter demo_db ''C1001'' 3 = Inr [''P1001'', ''P1002'']"
  by (simp add: getRecentInteractions_def spliced_literal_safe demo_db_def sql_limit_def
      order_by_desc_def stable_sorter_def upt2)

lemma demo_personalized:
  "getRecommendations insertion_psort stable_sorter demo_db demo_agent ''C1001'' 2 =
     Inr [''P1001'', ''P1002'']"
proof -
  have "filter (\<lambda>c. customer_id c = ''C1001'') (customers demo_db) \<noteq> []"
    by (simp add: demo_db_def)
  then show ?thesis
    by (simp add: getRecommendations_def Let_def getProfile_safe demo_recent
        demo_similar_P1001 demo_similar_P1002 dedup_and_limit_def)
qed

theorem personalized_tier_is_sorted_union_witness:
  "sql_safe ''C1001'' \<and> ''C1001'' \<in> set (map customer_id (customers demo_db)) \<and>
   getRecentInteractions stable_sorter demo_db ''C1001'' 3 = Inr [''P1001'', ''P1002''] \<and>
   getSimilarProducts insertion_psort demo_agent ''P1001'' 2 = Inr [''P1002''] \<and>
   getSimilarProducts insertion_psort demo_agent ''P1002'' 2 = Inr [''P1001''] \<and>
   getRecommendations insertion_psort stable_sorter demo_db demo_agent ''C1001'' 2 =
     Inr (take (nat 2) (sorted_list_of_set (set [''P1002''] \<union> set [''P1001''])))"
  using personalized_tier_is_sorted_union
      [of "''C1001''" demo_db stable_sorter "[''P1001'', ''P1002'']" insertion_psort demo_agent 2
        "\<lambda>p. if p = ''P1001'' then [''P1002''] else [''P1001'']"]
    demo_similar_P1001 demo_similar_P1002 demo_recent
  by simp (simp add: demo_db_def)

theorem personalized_tier_not_first_seen:
  "getRecentInteractions stable_sorter demo_db ''C1001'' 3 = Inr [''P1001'', ''P1002''] \<and>
   getSimilarProducts insertion_psort demo_agent ''P1001'' 2 = Inr [''P1002''] \<and>
   getSimilarProducts insertion_psort demo_agent ''P1002'' 2 = Inr [''P1001''] \<and>
   spec_personalized_tier [[''P1002''], [''P1001'']] 2 = [''P1002'', ''P1001''] \<and>
   getRecommendations insertion_psort stable_sorter demo_db demo_agent ''C1001'' 2 =
     Inr [''P1001'', ''P1002''] \<and>
   getRecommendations insertion_psort stable_sorter demo_db demo_agent ''C1001'' 2 \<noteq>
     Inr (spec_personalized_tier [[''P1002''], [''P1001'']] 2)"
  by (simp add: demo_recent demo_similar_P1001 demo_similar_P1002 demo_personalized
      spec_personalized_tier_def dedup_first_seen_def)

subsection \<open>C6: the order of the neighbours\<close>

text \<open>
  C6 (as amended). For every query that returns, over an index without zero-norm
  vectors, the result is a list \<open>top\<close> of \<open>topN\<close> positions of the index, without the
  position of the query: \<open>top\<close> is in non-increasing order of cosine similarity to the
  query, and no product outside \<open>top\<close> is strictly more similar to the query than a
  product of \<open>top\<close>. The order of two products of equal similarity is whatever
  \<open>std::partial_sort\<close> leaves; insertion order is not kept.
\<close>
theorem neighbours_by_descending_similarity:
  assumes contract: "partial_sort_contract psort"
    and norms: "\<forall>v\<in>set (productVectors agent). inner_product v v 0 \<noteq> 0"
    and vectors: "productVectors agent \<noteq> []"
    and idx: "find_pos (productIds agent) productId = Some idx"
    and res: "getSimilarProducts psort agent productId topN = Inr r"
  shows "\<exists>top. length top = nat topN \<and> distinct top \<and>
           set top \<subseteq> {..<length (productVectors agent)} \<and>
           sorted_wrt
             (\<lambda>a b. \<not> dgt (cosine (productVectors agent ! idx) (productVectors agent ! b))
                          (cosine (productVectors agent ! idx) (productVectors agent ! a))) top \<and>
           (\<forall>a\<in>set top. \<forall>b<length (productVectors agent). b \<notin> set top \<longrightarrow>
              \<not> dgt (cosine (productVectors agent ! idx) (productVectors agent ! b))
                    (cosine (productVectors agent ! idx) (productVectors agent ! a))) \<and>
           r = map ((!) (productIds agent)) (filter (\<lambda>i. i \<noteq> idx) top)"
proof -
  let ?vs = "productVectors agent"
  let ?n = "length ?vs"
  let ?q = "?vs ! idx"
  let ?sims = "calculateSimilarities agent ?q"
  let ?cmp = "\<lambda>a b. dgt (?sims ! a) (?sims ! b)"
  let ?m = "nat (topN + 1)"
  let ?sorted = "psort ?cmp ?m [0..<?n]"
  let ?top = "take (nat topN) ?sorted"
  let ?worse = "\<lambda>a b. \<not> dgt (cosine ?q (?vs ! b)) (cosine ?q (?vs ! a))"
  from idx have ids: "productIds agent \<noteq> []" by auto
  have in_range: "idx < ?n" and m: "?m \<le> length [0..<?n]"
    and loop: "result_loop (productIds agent) idx ?top = Inr r"
    using res idx vectors ids by (auto simp: getSimilarProducts_def Let_def split: if_splits)
  have q_norm: "inner_product ?q ?q 0 \<noteq> 0"
    using norms in_range by simp
  have sim: "?sims ! a = Fin (inner_product ?q (?vs ! a) 0 /
      (sqrt (inner_product ?q ?q 0) * sqrt (inner_product (?vs ! a) (?vs ! a) 0)))"
    if "a < ?n" for a
    using that norms q_norm by (simp add: calculateSimilarities_def cosine_nonzero_norms)
  have "strict_weak_order_on (set [0..<?n]) ?cmp"
    by (rule strict_weak_order_on_key
        [where key = "\<lambda>a. inner_product ?q (?vs ! a) 0 /
      (sqrt (inner_product ?q ?q 0) * sqrt (inner_product (?vs ! a) (?vs ! a) 0))"])
      (simp add: sim)
  with contract m have perm: "mset ?sorted = mset [0..<?n]"
    and sorted: "sorted_wrt (\<lambda>a b. \<not> ?cmp b a) (take ?m ?sorted)"
    and rest: "\<forall>a\<in>set (take ?m ?sorted). \<forall>b\<in>set (drop ?m ?sorted). \<not> ?cmp b a"
    unfolding partial_sort_contract_def by blast+
  have t: "nat topN \<le> ?m" by simp
  from partial_sort_prefix [OF sorted rest t]
  have top_sorted: "sorted_wrt (\<lambda>a b. \<not> ?cmp b a) ?top"
    and top_rest: "\<forall>a\<in>set ?top. \<forall>b\<in>set (drop (nat topN) ?sorted). \<not> ?cmp b a"
    by blast+
  have len_sorted: "length ?sorted = ?n"
    using perm by (metis length_upt mset_eq_length minus_nat.diff_0)
  have len_top: "length ?top = nat topN"
    using m len_sorted by simp
  have dist_sorted: "distinct ?sorted"
    using perm by (metis distinct_upt mset_eq_imp_distinct_iff)
  then have dist_top: "distinct ?top"
    by (simp add: distinct_take)
  have set_sorted: "set ?sorted = {0..<?n}"
    using perm by (metis mset_eq_setD set_upt)
  then have top_range: "set ?top \<subseteq> {..<?n}"
    by (auto dest: in_set_takeD)
  have nth_sims: "?sims ! a = cosine ?q (?vs ! a)" if "a < ?n" for a
    using that by (simp add: calculateSimilarities_def)
  have worse_sorted: "sorted_wrt ?worse ?top"
  proof (rule sorted_wrt_mono_rel [OF _ top_sorted])
    fix a b
    assume "a \<in> set ?top" "b \<in> set ?top" and ord: "\<not> ?cmp b a"
    then have "a < ?n" "b < ?n" using top_range by blast+
    then show "?worse a b"
      using ord nth_sims by simp
  qed
  have worse_rest: "?worse a b" if a: "a \<in> set ?top" and b: "b < ?n" "b \<notin> set ?top" for a b
  proof -
    have "b \<in> set ?sorted" using b(1) set_sorted by simp
    then have "b \<in> set ?top \<union> set (drop (nat topN) ?sorted)"
      by (metis append_take_drop_id set_append)
    with b(2) have "b \<in> set (drop (nat topN) ?sorted)" by simp
    with top_rest a have "\<not> ?cmp b a" by blast
    moreover have "a < ?n" using a top_range by blast
    ultimately show ?thesis using nth_sims b(1) by simp
  qed
  have "r = map ((!) (productIds agent)) (filter (\<lambda>i. i \<noteq> idx) ?top)"
    using loop by (rule result_loop_filter)
  with len_top dist_top top_range worse_sorted worse_rest show ?thesis
    by blast
qed

lemma shelf_agent_eq:
  "shelf_agent = \<lparr>productIds = [''P2001'', ''P2002'', ''P2003'', ''P2004''],
     productVectors = [hash_vector 2, hash_vector 3, hash_vector 4, hash_vector 5]\<rparr>"
  by (simp add: shelf_agent_def prepareProductVectors_def shelf_db_def shelf_products_def
      empty_agent_def createTextVector_hash_vector shelf_hasher_def)

lemma ip25: "inner_product (hash_vector 2) (hash_vector 5) 0 = 1236 / 10000"
  unfolding hash_vector_def createTextVector_def inner_product_def by code_simp
lemma ip55: "inner_product (hash_vector 5) (hash_vector 5) 0 = 3081 / 10000"
  unfolding hash_vector_def createTextVector_def inner_product_def by code_simp

lemma cosine25: "cosine (hash_vector 2) (hash_vector 5) = Fin (sqrt (1527696 / 1552824))"
  by (simp add: cosine_sqrt demo_ips ip25 ip55 power2_eq_square)

lemma upt4: "[0..<4] = [0, 1, 2, 3]"
  by code_simp

lemma shelf_similar_P2001:
  "getSimilarProducts insertion_psort shelf_agent ''P2001'' 3 = Inr [''P2002'', ''P2003'']"
  by (simp add: getSimilarProducts_def shelf_agent_eq calculateSimilarities_def upt4
        insertion_psort_def demo_cosines cosine25)

theorem neighbours_by_descending_similarity_witness:
  "partial_sort_contract insertion_psort \<and>
   list_all (\<lambda>v. inner_product v v 0 \<noteq> 0) (productVectors shelf_agent) \<and>
   productVectors shelf_agent \<noteq> [] \<and>
   find_pos (productIds shelf_agent) ''P2001'' = Some 0 \<and>
   getSimilarProducts insertion_psort shelf_agent ''P2001'' 3 = Inr [''P2002'', ''P2003''] \<and>
   dgt (cosine (productVectors shelf_agent ! 0) (productVectors shelf_agent ! 1))
       (cosine (productVectors shelf_agent ! 0) (productVectors shelf_agent ! 2)) \<and>
   dgt (cosine (productVectors shelf_agent ! 0) (productVectors shelf_agent ! 2))
       (cosine (productVectors shelf_agent ! 0) (productVectors shelf_agent ! 3)) \<and>
   (\<exists>top. length top = nat 3 \<and> distinct top \<and>
      set top \<subseteq> {..<length (productVectors shelf_agent)} \<and>
      sorted_wrt
        (\<lambda>a b. \<not> dgt (cosine (productVectors shelf_agent ! 0) (productVectors shelf_agent ! b))
                     (cosine (productVectors shelf_agent ! 0) (productVectors shelf_agent ! a))) top \<and>
      (\<forall>a\<in>set top. \<forall>b<length (productVectors shelf_agent). b \<notin> set top \<longrightarrow>
         \<not> dgt (cosine (productVectors shelf_agent ! 0) (productVectors shelf_agent ! b))
               (cosine (productVectors shelf_agent ! 0) (productVectors shelf_agent ! a))) \<and>
      [''P2002'', ''P2003''] = map ((!) (productIds shelf_agent)) (filter (\<lambda>i. i \<noteq> 0) top))"
proof -
  have norms: "\<forall>v\<in>set (productVectors shelf_agent). inner_product v v 0 \<noteq> 0"
    by (simp add: shelf_agent_eq demo_ips ip55)
  have vectors: "productVectors shelf_agent \<noteq> []"
    by (simp add: shelf_agent_eq)
  have idx: "find_pos (productIds shelf_agent) ''P2001'' = Some 0"
    by (simp add: shelf_agent_eq)
  have order: "dgt (cosine (productVectors shelf_agent ! 0) (productVectors shelf_agent ! 1))
       (cosine (productVectors shelf_agent ! 0) (productVectors shelf_agent ! 2))"
    "dgt (cosine (productVectors shelf_agent ! 0) (productVectors shelf_agent ! 2))
       (cosine (productVectors shelf_agent ! 0) (productVectors shelf_agent ! 3))"
    by (simp_all add: shelf_agent_eq demo_cosines cosine25)
  show ?thesis
    using neighbours_by_descending_similarity
      [OF insertion_psort_contract norms vectors idx shelf_similar_P2001]
      insertion_psort_contract norms vectors idx shelf_similar_P2001 order
    by (simp add: list_all_iff)
qed

lemma twin_agent_eq:
  "twin_agent = \<lparr>productIds = [''T1'', ''T2'', ''T3'', ''T4''],
     productVectors = [hash_vector 4, hash_vector 4, hash_vector 4, hash_vector 4]\<rparr>"
  by (simp add: twin_agent_def prepareProductVectors_def twin_db_def
      empty_agent_def createTextVector_hash_vector demo_hasher_def)

lemma cosine44: "cosine (hash_vector 4) (hash_vector 4) = Fin 1"
  by (simp add: cosine_sqrt demo_ips power2_eq_square)

lemma twin_similar_T4:
  "getSimilarProducts heap_psort twin_agent ''T4'' 3 = Inr [''T2'', ''T1'']"
proof -
  have guard: "(productVectors twin_agent = [] \<or> productIds twin_agent = []) = False"
    by (simp add: twin_agent_eq)
  have pos: "find_pos (productIds twin_agent) ''T4'' = Some 3"
    by (simp add: twin_agent_eq)
  have in_range: "(length (productVectors twin_agent) \<le> 3) = False"
    by (simp add: twin_agent_eq)
  have sims: "calculateSimilarities twin_agent (productVectors twin_agent ! 3) =
      [Fin 1, Fin 1, Fin 1, Fin 1]"
    by (simp add: twin_agent_eq calculateSimilarities_def cosine44)
  have bound: "((3::int) + 1 < 0 \<or>
      int (length [0..<length [Fin 1, Fin 1, Fin 1, Fin 1]]) < 3 + 1) = False"
    by simp
  have sorted: "heap_psort
      (\<lambda>a b. dgt ([Fin 1, Fin 1, Fin 1, Fin 1] ! a) ([Fin 1, Fin 1, Fin 1, Fin 1] ! b))
      (nat (3 + 1)) [0..<length [Fin 1, Fin 1, Fin 1, Fin 1]] = [1, 3, 0, 2]"
    by code_simp
  have loop: "result_loop (productIds twin_agent) 3 (take (nat 3) [1, 3, 0, 2]) =
      Inr [''T2'', ''T1'']"
    by (simp add: twin_agent_eq)
  show ?thesis
    unfolding getSimilarProducts_def
    by (simp only: guard if_False pos option.case in_range sims Let_def bound sorted loop)
qed

theorem equal_similarity_later_first:
  "productIds twin_agent = [''T1'', ''T2'', ''T3'', ''T4''] \<and>
   cosine (productVectors twin_agent ! 3) (productVectors twin_agent ! 0) =
     cosine (productVectors twin_agent ! 3) (productVectors twin_agent ! 1) \<and>
   getSimilarProducts heap_psort twin_agent ''T4'' 3 = Inr [''T2'', ''T1'']"
  by (simp add: twin_similar_T4) (simp add: twin_agent_eq)

subsection \<open>The arithmetic of doubles, evaluated\<close>

lemma round_even_of_int [simp]: "round_even (of_int n) = n"
  by (simp add: round_even_def)

lemma abs_round_even_le:
  assumes "\<bar>y\<bar> \<le> of_int N"
  shows "\<bar>round_even y\<bar> \<le> N"
proof -
  have lo: "- N \<le> \<lfloor>y\<rfloor>" using assms by (simp add: le_floor_iff abs_le_iff)
  have hi: "\<lfloor>y\<rfloor> \<le> N" using assms by (simp add: floor_le_iff abs_le_iff)
  have top: "y = of_int N" if "\<lfloor>y\<rfloor> = N"
    using that assms by (metis abs_le_iff of_int_floor_le order_antisym)
  show ?thesis
  proof (cases "\<lfloor>y\<rfloor> = N")
    case True
    then have "y = of_int N" by (rule top)
    then show ?thesis using assms by simp
  next
    case False
    with hi have "\<lfloor>y\<rfloor> + 1 \<le> N" by simp
    with lo hi show ?thesis
      by (auto simp: round_even_def Let_def abs_le_iff)
  qed
qed

lemma binade_eq:
  assumes "2 ^ k \<le> \<bar>x\<bar>" "\<bar>x\<bar> < 2 ^ Suc k"
  shows "binade x = int k"
proof -
  have pos: "0 < \<bar>x\<bar>" using assms(1) by (smt (verit) zero_less_power)
  have "\<lfloor>log 2 \<bar>x\<bar>\<rfloor> = int k"
    using assms floor_log_eq_powr_iff [OF pos, of 2 "int k"]
    by (simp add: powr_realpow powr_add)
  then show ?thesis by (simp add: binade_def)
qed

lemma dbl_max_ge: "2 ^ 1023 \<le> dbl_max"
  by (simp add: dbl_max_def)

lemma to_double_big:
  assumes k: "52 \<le> k" "k < 1023" and x: "2 ^ k \<le> \<bar>x\<bar>" "\<bar>x\<bar> < 2 ^ Suc k"
  shows "to_double x = Fin (2 ^ (k - 52) * of_int (round_even (x / 2 ^ (k - 52))))"
proof -
  have nz: "x \<noteq> 0" using x(1) by (smt (verit) abs_zero zero_less_power)
  have b: "binade x = int k" using x by (rule binade_eq)
  have "real_of_int (int k - 52) = real (k - 52)" using k by simp
  then have q: "2 powr real_of_int (binade x - 52) = (2::real) ^ (k - 52)"
    by (simp only: b powr_realpow zero_less_numeral)
  have "\<bar>x / 2 ^ (k - 52)\<bar> \<le> of_int (2 ^ 53)"
  proof -
    have "k - 52 + 53 = Suc k" using k by simp
    then have "(2::real) ^ (k - 52) * 2 ^ 53 = 2 ^ Suc k"
      by (simp only: flip: power_add)
    then have "\<bar>x\<bar> \<le> 2 ^ (k - 52) * 2 ^ 53"
      using x(2) by linarith
    then show ?thesis
      by (simp add: abs_divide field_simps)
  qed
  then have "\<bar>round_even (x / 2 ^ (k - 52))\<bar> \<le> 2 ^ 53" by (rule abs_round_even_le)
  then have "\<bar>real_of_int (round_even (x / 2 ^ (k - 52)))\<bar> \<le> 2 ^ 53"
    by (metis of_int_abs of_int_le_iff of_int_numeral of_int_power)
  then have "\<bar>2 ^ (k - 52) * real_of_int (round_even (x / 2 ^ (k - 52)))\<bar> \<le> 2 ^ (k - 52) * 2 ^ 53"
    by (simp add: abs_mult)
  also have "\<dots> = 2 ^ (k - 52 + 53)" by (simp only: power_add)
  also have "\<dots> \<le> (2::real) ^ 1023" using k by (intro power_increasing) auto
  also have "\<dots> \<le> dbl_max" by (rule dbl_max_ge)
  finally have "\<not> dbl_max < \<bar>2 ^ (k - 52) * real_of_int (round_even (x / 2 ^ (k - 52)))\<bar>"
    by simp
  then show ?thesis
    unfolding to_double_def Let_def q using nz by simp
qed

lemma to_double_exact:
  assumes nz: "x \<noteq> 0" and m: "x = 2 powr real_of_int (binade x - 52) * of_int m"
    and le: "\<bar>x\<bar> \<le> dbl_max"
  shows "to_double x = Fin x"
proof -
  let ?q = "2 powr real_of_int (binade x - 52)"
  have "x / ?q = of_int m"
    by (subst m) simp
  then have "?q * of_int (round_even (x / ?q)) = x"
    using m by simp
  then show ?thesis
    unfolding to_double_def Let_def using nz le by simp
qed

lemma to_double_int:
  assumes "x \<in> \<int>" "\<bar>x\<bar> \<le> 2 ^ 53"
  shows "to_double x = Fin x"
proof (cases "x = 0")
  case True
  then show ?thesis by (simp add: to_double_def)
next
  case False
  from assms(1) obtain n :: int where n: "x = of_int n" by (auto elim: Ints_cases)
  with False have "1 \<le> \<bar>n\<bar>" by auto
  then have one: "1 \<le> \<bar>x\<bar>" unfolding n by (metis of_int_1_le_iff of_int_abs)
  define e where "e = \<lfloor>log 2 \<bar>x\<bar>\<rfloor>"
  have pos: "0 < \<bar>x\<bar>" using False by simp
  have bounds: "2 powr real_of_int e \<le> \<bar>x\<bar>" "\<bar>x\<bar> < 2 powr real_of_int (e + 1)"
    using floor_log_eq_powr_iff [OF pos, of 2 e] by (simp_all add: e_def)
  have e0: "0 \<le> e" unfolding e_def using one by (simp add: zero_le_log_cancel_iff)
  have e53: "e \<le> 53"
  proof (rule ccontr)
    assume "\<not> e \<le> 53"
    then have "(54::real) \<le> real_of_int e" by simp
    then have "(2::real) powr 54 \<le> 2 powr real_of_int e" by (intro powr_mono) auto
    then show False using bounds(1) assms(2) by simp
  qed
  have b: "binade x = e" using e0 by (simp add: binade_def e_def)
  have "(2::real) ^ 53 \<le> 2 ^ 1023" by (intro power_increasing) auto
  then have le: "\<bar>x\<bar> \<le> dbl_max"
    using assms(2) dbl_max_ge by linarith
  show ?thesis
  proof (cases "e \<le> 52")
    case True
    have "real_of_int (e - 52) = - real (nat (52 - e))" using True by simp
    then have "2 powr real_of_int (e - 52) = 2 powr (- real (nat (52 - e)))" by (simp only:)
    also have "\<dots> = 1 / 2 ^ nat (52 - e)"
      by (simp only: powr_minus powr_realpow zero_less_numeral inverse_eq_divide)
    finally have q: "2 powr real_of_int (binade x - 52) = 1 / 2 ^ nat (52 - e)"
      unfolding b .
    show ?thesis
    proof (rule to_double_exact [OF False _ le, of "n * 2 ^ nat (52 - e)"])
      show "x = 2 powr real_of_int (binade x - 52) * real_of_int (n * 2 ^ nat (52 - e))"
        unfolding q by (simp add: n)
    qed
  next
    case False
    with e53 have e: "e = 53" by simp
    have "2 ^ 53 \<le> \<bar>x\<bar>" using bounds(1) by (simp add: e powr_numeral)
    with assms(2) have ax: "\<bar>x\<bar> = 2 ^ 53" by simp
    then have "\<bar>n\<bar> = 2 ^ 53" unfolding n
      by (metis of_int_abs of_int_eq_iff of_int_numeral of_int_power)
    then have "n = 2 ^ 53 \<or> n = - (2 ^ 53)" by (simp add: abs_if split: if_splits)
    then have "n = 2 * (n div 2)" by auto
    then have half: "x = 2 * of_int (n div 2)" unfolding n by (metis of_int_mult of_int_numeral)
    have q: "2 powr real_of_int (binade x - 52) = 2" unfolding b e by simp
    show ?thesis
    proof (rule to_double_exact [OF \<open>x \<noteq> 0\<close> _ le, of "n div 2"])
      show "x = 2 powr real_of_int (binade x - 52) * real_of_int (n div 2)"
        unfolding q by (rule half)
    qed
  qed
qed

lemmas to_double_53 = to_double_big [of 53, simplified]
lemmas to_double_54 = to_double_big [of 54, simplified]

lemma binary64_sel [simp]:
  "d_add binary64 = plus64" "d_sub binary64 = (\<lambda>a b. plus64 a (negate64 b))"
  "d_pow2 binary64 = square64" "d_div_int binary64 = divide64"
  by (simp_all add: binary64_def)

lemma dbl_max_gt_small: "x \<le> 2 ^ 53 \<Longrightarrow> x < dbl_max"
proof -
  have "(2::real) ^ 53 < 2 ^ 1023" by (intro power_strict_increasing) auto
  then show "x \<le> 2 ^ 53 \<Longrightarrow> x < dbl_max" using dbl_max_ge by linarith
qed

lemmas b64 = to_double_int to_double_53 to_double_54 round_even_def Let_def





lemma grid_update_1:
  "update_centroids binary64 grid_batch [1, 0, 0, 0] 2 = [[Fin (2 ^ 53 + 6)], [Fin (2 ^ 53)]]"
  by (simp add: update_centroids_def grid_batch_def upt2 b64)




subsection \<open>C8: the centroid update\<close>

lemma zip_filter_members:
  assumes "length clusters = length features"
  shows "map fst (filter (\<lambda>(x, c). c = j) (zip features clusters)) =
    map ((!) features) (filter (\<lambda>i. clusters ! i = j) [0..<length features])"
proof -
  have "zip features clusters = map (\<lambda>i. (features ! i, clusters ! i)) [0..<length features]"
    using assms by (intro nth_equalityI) auto
  then show ?thesis
    by (simp add: filter_map comp_def)
qed

lemma foldl_map2_nth:
  "\<forall>x\<in>set ms. length x = D \<Longrightarrow> length acc = D \<Longrightarrow>
     foldl (map2 f) acc ms = map (\<lambda>d. foldl f (acc ! d) (map (\<lambda>x. x ! d) ms)) [0..<D]"
proof (induction ms arbitrary: acc)
  case Nil
  then show ?case by (auto intro: nth_equalityI)
next
  case (Cons m ms)
  have "length (map2 f acc m) = D" using Cons.prems by simp
  with Cons have "foldl (map2 f) (map2 f acc m) ms =
      map (\<lambda>d. foldl f (map2 f acc m ! d) (map (\<lambda>x. x ! d) ms)) [0..<D]"
    by simp
  also have "\<dots> = map (\<lambda>d. foldl f (acc ! d) (map (\<lambda>x. x ! d) (m # ms))) [0..<D]"
    using Cons.prems by auto
  finally show ?case by simp
qed

lemma update_centroids_nth:
  assumes dims: "\<forall>x\<in>set features. length x = D" and ne: "features \<noteq> []"
    and len: "length clusters = length features" and j: "j < k"
  shows "update_centroids ar features clusters k ! j =
    (let members = filter (\<lambda>i. clusters ! i = j) [0..<length features]
     in if members = [] then replicate D (Fin 0)
        else map (\<lambda>d. d_div_int ar
                         (foldl (d_add ar) (Fin 0) (map (\<lambda>i. features ! i ! d) members))
                         (int (length members)))
               [0..<D])"
proof -
  let ?idx = "filter (\<lambda>i. clusters ! i = j) [0..<length features]"
  let ?members = "map ((!) features) ?idx"
  have members: "map fst (filter (\<lambda>(x, c). c = j) (zip features clusters)) = ?members"
    using len by (rule zip_filter_members)
  have D: "length (hd features) = D" using dims ne by simp
  have mem_dims: "\<forall>x\<in>set ?members. length x = D" using dims by auto
  have total: "foldl (map2 (d_add ar)) (replicate D (Fin 0)) ?members =
      map (\<lambda>d. foldl (d_add ar) (Fin 0) (map (\<lambda>i. features ! i ! d) ?idx)) [0..<D]"
    using foldl_map2_nth [OF mem_dims, of "replicate D (Fin 0)" "d_add ar"]
    by (simp add: comp_def cong: map_cong)
  have "update_centroids ar features clusters k ! j =
      (let members = map fst (filter (\<lambda>(x, c). c = j) (zip features clusters));
           total = foldl (map2 (d_add ar)) (replicate (length (hd features)) (Fin 0)) members
       in if 0 < length members
          then map (\<lambda>s. d_div_int ar s (int (length members))) total else total)"
    using j by (simp add: update_centroids_def)
  also have "\<dots> =
      (if 0 < length ?idx
       then map (\<lambda>s. d_div_int ar s (int (length ?idx)))
              (map (\<lambda>d. foldl (d_add ar) (Fin 0) (map (\<lambda>i. features ! i ! d) ?idx)) [0..<D])
       else map (\<lambda>d. foldl (d_add ar) (Fin 0) (map (\<lambda>i. features ! i ! d) ?idx)) [0..<D])"
    by (simp only: members D Let_def total length_map)
  also have "\<dots> = (if ?idx = [] then replicate D (Fin 0)
        else map (\<lambda>d. d_div_int ar
                         (foldl (d_add ar) (Fin 0) (map (\<lambda>i. features ! i ! d) ?idx))
                         (int (length ?idx)))
               [0..<D])"
    by (cases "?idx = []") (simp_all add: comp_def map_replicate_const)
  finally show ?thesis by (simp only: Let_def)
qed

text \<open>
  C8 (as amended). In the centroid update of a pass, over features of a common dimension
  \<open>D\<close>, the centroid of a cluster with no member becomes the zero vector (the sums
  start at zero and are divided only where \<open>counts[j] > 0\<close>), and the centroid of a
  cluster with members becomes, in each dimension, the sum of its members, added one by
  one from zero in the order of the batch, divided by their number, in the arithmetic
  of doubles: the mean of the members up to rounding.
\<close>
theorem update_centroids_step:
  assumes "\<forall>x\<in>set features. length x = D" and "features \<noteq> []"
    and "length clusters = length features" and "j < k"
  shows "update_centroids ar features clusters k ! j =
    (let members = filter (\<lambda>i. clusters ! i = j) [0..<length features]
     in if members = [] then replicate D (Fin 0)
        else map (\<lambda>d. d_div_int ar
                         (foldl (d_add ar) (Fin 0) (map (\<lambda>i. features ! i ! d) members))
                         (int (length members)))
               [0..<D])"
  using assms by (rule update_centroids_nth)

theorem update_centroids_step_witness:
  "map length [[Fin 1, Fin 1], [Fin 3, Fin 5]] = [2, 2] \<and> [[Fin 1, Fin 1], [Fin 3, Fin 5]] \<noteq> [] \<and>
   length [0, 0 :: nat] = length [[Fin 1, Fin 1], [Fin 3, Fin 5]] \<and> (0 :: nat) < 2 \<and> (1 :: nat) < 2 \<and>
   update_centroids binary64 [[Fin 1, Fin 1], [Fin 3, Fin 5]] [0, 0] 2 ! 0 = [Fin 2, Fin 3] \<and>
   update_centroids binary64 [[Fin 1, Fin 1], [Fin 3, Fin 5]] [0, 0] 2 ! 1 = [Fin 0, Fin 0]"
proof -
  have dims: "\<forall>x\<in>set [[Fin 1, Fin 1], [Fin 3, Fin 5]]. length x = 2" by simp
  show ?thesis
    using update_centroids_step [OF dims, of "[0, 0]" 0 2 binary64]
      update_centroids_step [OF dims, of "[0, 0]" 1 2 binary64]
    by (simp add: upt2 numeral_2_eq_2 b64)
qed

theorem centroid_reset_and_rounded_mean:
  "assign_clusters binary64 [[Fin 1, Fin 1], [Fin 1, Fin 1]] 2 [[Fin 1, Fin 1]] = [0] \<and>
   update_centroids binary64 [[Fin 1, Fin 1]] [0] 2 = [[Fin 1, Fin 1], [Fin 0, Fin 0]] \<and>
   update_centroids binary64 [[Fin 1, Fin 1]] [0] 2 ! 1 \<noteq> [[Fin 1, Fin 1], [Fin 1, Fin 1]] ! 1 \<and>
   update_centroids binary64 grid_batch [1, 0, 0, 0] 2 ! 0 = [Fin (2 ^ 53 + 6)] \<and>
   ((2 ^ 53 + 2) + (2 ^ 53 + 4) + (2 ^ 53 + 6)) / 3 = (2 ^ 53 + 4 :: real)"
proof -
  have "assign_clusters binary64 [[Fin 1, Fin 1], [Fin 1, Fin 1]] 2 [[Fin 1, Fin 1]] = [0]"
    by (simp add: assign_clusters_def nearest_centroid_def squared_distance_def upt2 b64
        dbl_max_gt_small)
  moreover have "update_centroids binary64 [[Fin 1, Fin 1]] [0] 2 = [[Fin 1, Fin 1], [Fin 0, Fin 0]]"
    by (simp add: update_centroids_def upt2 numeral_2_eq_2 b64)
  moreover have "update_centroids binary64 grid_batch [1, 0, 0, 0] 2 ! 0 = [Fin (2 ^ 53 + 6)]"
    unfolding grid_update_1 by simp
  moreover have "((2 ^ 53 + 2) + (2 ^ 53 + 4) + (2 ^ 53 + 6)) / 3 = (2 ^ 53 + 4 :: real)"
    by simp
  ultimately show ?thesis
    by simp
qed

subsection \<open>C7: the loop of the k-means clustering\<close>






end
